theory Spec2Isabelle
  imports Complex_Main
begin

unbundle bit_operations_syntax

section \<open>UART protocol decoder (decoders/uart/pd.py)\<close>

text \<open>
  The decoder is a Python class with one automaton per line (RX, TX), a timing
  predictor and a driver loop around the host's \<open>wait\<close> call. Python integers are
  modelled as \<open>int\<close>. The samples-per-bit value \<open>bit_width\<close> is a Python float,
  \<open>float(samplerate) / float(baudrate)\<close>; it is modelled as an exact rational, so the
  rounding of IEEE arithmetic is not part of the model. Option values are the strings
  of the source's \<open>options\<close> table. A sampled signal is \<open>0\<close> or \<open>1\<close>; Python's
  \<open>not signal\<close> gives a \<open>bool\<close>, which behaves as the integer \<open>0\<close> or \<open>1\<close> in every
  use the decoder makes of it.
\<close>

subsection \<open>Python primitives used by the decoder\<close>

datatype error =
    SamplerateError string
  | ChannelError string
  | ValueError
  | OverflowError
  | IndexError

text \<open>One digit of Python's \<open>X\<close>, \<open>o\<close>, \<open>b\<close> and \<open>d\<close> presentations (upper case).\<close>

definition digit_char :: "nat \<Rightarrow> char" where
  "digit_char k = (if k < 10 then char_of (48 + k) else char_of (55 + k))"

text \<open>The digits of a natural number in base \<open>b\<close>, most significant first; \<open>0\<close> is \<open>''0''\<close>.\<close>

fun to_base :: "nat \<Rightarrow> nat \<Rightarrow> string" where
  "to_base b n =
     (if b < 2 \<or> n < b then [digit_char n]
      else to_base b (n div b) @ [digit_char (n mod b)])"

declare to_base.simps [simp del]

text \<open>
  \<open>"{:0wX}".format(v)\<close> and its siblings: the sign, then zeros up to the total
  width \<open>w\<close>, then the digits. A width of \<open>0\<close> is the format without padding.
\<close>

definition py_format_int :: "nat \<Rightarrow> nat \<Rightarrow> int \<Rightarrow> string" where
  "py_format_int b w v =
     (let s = to_base b (nat \<bar>v\<bar>);
          sgn = (if v < 0 then ''-'' else '''')
      in sgn @ replicate (w - length sgn - length s) (CHR ''0'') @ s)"

text \<open>\<open>bin(v)\<close>: the sign, the prefix \<open>0b\<close>, the binary digits.\<close>

definition py_bin :: "int \<Rightarrow> string" where
  "py_bin v = (if v < 0 then ''-'' else '''') @ ''0b'' @ to_base 2 (nat \<bar>v\<bar>)"

text \<open>\<open>s.count('1')\<close> for a one-character needle.\<close>

definition py_count :: "string \<Rightarrow> char \<Rightarrow> int" where
  "py_count s c = int (length (filter (\<lambda>x. x = c) s))"

text \<open>\<open>int(x)\<close> on a float truncates towards zero.\<close>

definition py_int :: "rat \<Rightarrow> int" where
  "py_int q = (if 0 \<le> q then \<lfloor>q\<rfloor> else \<lceil>q\<rceil>)"

text \<open>
  \<open>v.to_bytes(len, byteorder='big')\<close>: \<open>OverflowError\<close> for a negative value or one
  that does not fit, \<open>ValueError\<close> for a negative length.
\<close>

definition to_bytes :: "int \<Rightarrow> int \<Rightarrow> error + int list" where
  "to_bytes v len =
     (if len < 0 then Inl ValueError
      else if v < 0 \<or> 256 ^ nat len \<le> v then Inl OverflowError
      else Inr (map (\<lambda>i. (v div 256 ^ (nat len - 1 - i)) mod 256) [0..<nat len]))"

subsection \<open>Parity\<close>

text \<open>
  \<open>parity_ok(parity_type, parity_bit, data, num_data_bits)\<close>. A parity type other than
  the four checked ones falls off the end of the function, which returns Python's
  \<open>None\<close>: here \<open>None\<close>.
\<close>

definition parity_ok :: "string \<Rightarrow> int \<Rightarrow> int \<Rightarrow> int \<Rightarrow> bool option" where
  "parity_ok parity_type parity_bit data num_bits =
     (if parity_type = ''zero'' then Some (parity_bit = 0)
      else if parity_type = ''one'' then Some (parity_bit = 1)
      else
        (let ones = py_count (py_bin data) (CHR ''1'') + parity_bit
         in if parity_type = ''odd'' then Some (ones mod 2 = 1)
            else if parity_type = ''even'' then Some (ones mod 2 = 0)
            else None))"

text \<open>
  The number of set bits of an integer, as Python's \<open>int.bit_count\<close> has it: the set
  bits of the absolute value.
\<close>

fun popcount_nat :: "nat \<Rightarrow> nat" where
  "popcount_nat n = (if n = 0 then 0 else n mod 2 + popcount_nat (n div 2))"

declare popcount_nat.simps [simp del]

definition popcount :: "int \<Rightarrow> int" where
  "popcount v = int (popcount_nat (nat \<bar>v\<bar>))"

subsection \<open>Configuration and decoder state\<close>

datatype line = RX | TX

definition line_num :: "line \<Rightarrow> int" where
  "line_num l = (case l of RX \<Rightarrow> 0 | TX \<Rightarrow> 1)"

record options =
  baudrate :: int
  num_data_bits :: int
  parity_type :: string
  parity_check :: string
  num_stop_bits :: rat
  bit_order :: string
  format :: string
  invert_rx :: string
  invert_tx :: string


text \<open>The defaults of \<open>Decoder.options\<close>.\<close>

definition default_options :: options where
  "default_options =
     \<lparr>baudrate = 115200, num_data_bits = 8, parity_type = ''none'',
      parity_check = ''yes'', num_stop_bits = 1, bit_order = ''lsb-first'',
      format = ''hex'', invert_rx = ''no'', invert_tx = ''no''\<rparr>"

subsection \<open>Formatting a data value\<close>

text \<open>
  \<open>format_value\<close>: \<open>None\<close> is Python's \<open>None\<close>, the result for a format that is none
  of the five.
\<close>

definition format_value :: "options \<Rightarrow> int \<Rightarrow> string option" where
  "format_value opts v =
     (let fmt = format opts; bits = num_data_bits opts in
      if fmt = ''ascii'' then
        (if 32 \<le> v \<and> v < 126 + 1 then Some [char_of v]
         else Some (''['' @ py_format_int 16 (if bits \<le> 8 then 2 else 3) v @ '']''))
      else if fmt = ''dec'' then Some (py_format_int 10 0 v)
      else if fmt = ''hex'' then Some (py_format_int 16 (nat ((bits + 4 - 1) div 4)) v)
      else if fmt = ''oct'' then Some (py_format_int 8 (nat ((bits + 3 - 1) div 3)) v)
      else if fmt = ''bin'' then Some (py_format_int 2 (nat bits) v)
      else None)"

subsection \<open>Output of the decoder\<close>

text \<open>
  The payloads of \<open>self.put(ss, es, output_id, data)\<close>. \<open>Python\<close> is the packet
  \<open>[ptype, rxtx, pdata]\<close> on \<open>out_python\<close>, \<open>Ann\<close> the annotation \<open>[class, texts]\<close> on
  \<open>out_ann\<close>, \<open>Binary\<close> the pair \<open>[row, bytes]\<close> on \<open>out_binary\<close>. An output is the
  span \<open>ss\<close>, \<open>es\<close> with its payload.
\<close>

datatype pdata =
    PBit int
  | PData int "(int \<times> int \<times> int) list"
  | PTuple int int

datatype payload =
    Python string int pdata
  | Ann int "string list"
  | Binary int "int list"

type_synonym emitted = "int \<times> int \<times> payload"

datatype uart_state =
    WAIT_FOR_START_BIT
  | GET_START_BIT
  | GET_DATA_BITS
  | GET_PARITY_BIT
  | GET_STOP_BITS

text \<open>
  The attributes of \<open>Decoder\<close>. The two-element lists indexed by \<open>rxtx\<close> are functions
  of the line. \<open>bit_width\<close> is assigned by \<open>metadata\<close> together with \<open>samplerate\<close>;
  \<open>samplenum\<close> is advanced by the host at every \<open>wait\<close>.
\<close>

record decoder =
  samplerate :: "int option"
  bit_width :: rat
  samplenum :: int
  frame_start :: "line \<Rightarrow> int"
  startbit :: "line \<Rightarrow> int"
  cur_data_bit :: "line \<Rightarrow> int"
  datavalue :: "line \<Rightarrow> int"
  paritybit :: "line \<Rightarrow> int"
  stopbit1 :: "line \<Rightarrow> int"
  startsample :: "line \<Rightarrow> int"
  state :: "line \<Rightarrow> uart_state"
  databits :: "line \<Rightarrow> (int \<times> int \<times> int) list"

text \<open>\<open>reset\<close> assigns every attribute but \<open>bit_width\<close>, which it leaves as it is.\<close>

definition reset :: "decoder \<Rightarrow> decoder" where
  "reset d =
     d\<lparr>samplerate := None, samplenum := 0,
       frame_start := (\<lambda>_. -1), startbit := (\<lambda>_. -1),
       cur_data_bit := (\<lambda>_. 0), datavalue := (\<lambda>_. 0),
       paritybit := (\<lambda>_. -1), stopbit1 := (\<lambda>_. -1),
       startsample := (\<lambda>_. -1), state := (\<lambda>_. WAIT_FOR_START_BIT),
       databits := (\<lambda>_. [])\<rparr>"

text \<open>
  \<open>Decoder()\<close>: \<open>__init__\<close> calls \<open>reset\<close>. The object has no \<open>bit_width\<close> before
  \<open>metadata\<close> assigns it; the record holds \<open>0\<close> until then.
\<close>

definition new_decoder :: decoder where
  "new_decoder =
     reset \<lparr>samplerate = None, bit_width = 0, samplenum = 0,
            frame_start = (\<lambda>_. 0), startbit = (\<lambda>_. 0), cur_data_bit = (\<lambda>_. 0),
            datavalue = (\<lambda>_. 0), paritybit = (\<lambda>_. 0), stopbit1 = (\<lambda>_. 0),
            startsample = (\<lambda>_. 0), state = (\<lambda>_. WAIT_FOR_START_BIT),
            databits = (\<lambda>_. [])\<rparr>"


text \<open>\<open>self.bw\<close>, assigned by \<open>start\<close>.\<close>

definition bw :: "options \<Rightarrow> int" where
  "bw opts = (num_data_bits opts + 7) div 8"

definition putx :: "decoder \<Rightarrow> line \<Rightarrow> payload \<Rightarrow> emitted" where
  "putx d rxtx data =
     (let s = startsample d rxtx; halfbit = bit_width d / 2
      in (s - \<lfloor>halfbit\<rfloor>, samplenum d + \<lceil>halfbit\<rceil>, data))"

definition putpx :: "decoder \<Rightarrow> line \<Rightarrow> payload \<Rightarrow> emitted" where
  "putpx d rxtx data =
     (let s = startsample d rxtx; halfbit = bit_width d / 2
      in (s - \<lfloor>halfbit\<rfloor>, samplenum d + \<lceil>halfbit\<rceil>, data))"

definition putg :: "decoder \<Rightarrow> payload \<Rightarrow> emitted" where
  "putg d data =
     (let s = samplenum d; halfbit = bit_width d / 2
      in (s - \<lfloor>halfbit\<rfloor>, s + \<lceil>halfbit\<rceil>, data))"

definition putp :: "decoder \<Rightarrow> payload \<Rightarrow> emitted" where
  "putp d data =
     (let s = samplenum d; halfbit = bit_width d / 2
      in (s - \<lfloor>halfbit\<rfloor>, s + \<lceil>halfbit\<rceil>, data))"

definition putbin :: "decoder \<Rightarrow> line \<Rightarrow> payload \<Rightarrow> emitted" where
  "putbin d rxtx data =
     (let s = startsample d rxtx; halfbit = bit_width d / 2
      in (s - \<lfloor>halfbit\<rfloor>, samplenum d + \<lceil>halfbit\<rceil>, data))"

subsection \<open>Timing predictor\<close>

definition get_sample_point :: "decoder \<Rightarrow> line \<Rightarrow> int \<Rightarrow> rat" where
  "get_sample_point d rxtx bitnum =
     (let bitpos = of_int (frame_start d rxtx) + (bit_width d - 1) / 2
      in bitpos + of_int bitnum * bit_width d)"

text \<open>
  A condition for the host's \<open>wait\<close>: \<open>{rxtx: 'r'}\<close>, \<open>{rxtx: 'f'}\<close> or
  \<open>{'skip': n}\<close>.
\<close>

datatype edge = Rising | Falling

datatype wait_cond = Edge line edge | Skip int

definition get_wait_cond :: "options \<Rightarrow> decoder \<Rightarrow> line \<Rightarrow> bool \<Rightarrow> wait_cond" where
  "get_wait_cond opts d rxtx invert =
     (let st = state d rxtx in
      if st = WAIT_FOR_START_BIT then Edge rxtx (if invert then Rising else Falling)
      else
        (let bitnum =
           (if st = GET_START_BIT then 0
            else if st = GET_DATA_BITS then 1 + cur_data_bit d rxtx
            else if st = GET_PARITY_BIT then 1 + num_data_bits opts
            else 1 + num_data_bits opts
                 + (if parity_type opts = ''none'' then 0 else 1));
             want_num = \<lceil>get_sample_point d rxtx bitnum\<rceil>
         in Skip (want_num - samplenum d)))"

subsection \<open>Frame state machine\<close>

text \<open>
  Every handler takes the decoder and returns it updated, with the outputs it put, in
  order. \<open>get_data_bits\<close> can raise: its result is then the error with the outputs put
  before it.
\<close>

definition wait_for_start_bit :: "line \<Rightarrow> int \<Rightarrow> decoder \<Rightarrow> decoder \<times> emitted list" where
  "wait_for_start_bit rxtx signal d =
     (d\<lparr>frame_start := (frame_start d)(rxtx := samplenum d),
        state := (state d)(rxtx := GET_START_BIT)\<rparr>, [])"

definition get_start_bit :: "line \<Rightarrow> int \<Rightarrow> decoder \<Rightarrow> decoder \<times> emitted list" where
  "get_start_bit rxtx signal d0 =
     (let d = d0\<lparr>startbit := (startbit d0)(rxtx := signal)\<rparr> in
      if startbit d rxtx \<noteq> 0 then
        (d\<lparr>state := (state d)(rxtx := WAIT_FOR_START_BIT)\<rparr>,
         [putp d (Python ''INVALID STARTBIT'' (line_num rxtx) (PBit (startbit d rxtx))),
          putg d (Ann (line_num rxtx + 10) [''Frame error'', ''Frame err'', ''FE''])])
      else
        (let d1 = d\<lparr>cur_data_bit := (cur_data_bit d)(rxtx := 0),
                      datavalue := (datavalue d)(rxtx := 0),
                      startsample := (startsample d)(rxtx := -1)\<rparr>
         in (d1\<lparr>state := (state d1)(rxtx := GET_DATA_BITS)\<rparr>,
             [putp d1 (Python ''STARTBIT'' (line_num rxtx) (PBit (startbit d1 rxtx))),
              putg d1 (Ann (line_num rxtx + 2) [''Start bit'', ''Start'', ''S''])])))"

text \<open>
  The accumulation step of \<open>get_data_bits\<close>: \<open>>>=\<close>, \<open><<=\<close> and \<open>|=\<close> on Python
  integers. A negative shift count raises \<open>ValueError\<close>.
\<close>

definition shift_in :: "options \<Rightarrow> int \<Rightarrow> int \<Rightarrow> error + int" where
  "shift_in opts v signal =
     (if bit_order opts = ''lsb-first'' then
        (if num_data_bits opts - 1 < 0 then Inl ValueError
         else Inr (drop_bit 1 v OR push_bit (nat (num_data_bits opts - 1)) signal))
      else Inr (push_bit 1 v OR push_bit 0 signal))"

definition get_data_bits ::
  "options \<Rightarrow> line \<Rightarrow> int \<Rightarrow> decoder \<Rightarrow> (error \<times> emitted list) + (decoder \<times> emitted list)" where
  "get_data_bits opts rxtx signal d0 =
     (let d1 = (if startsample d0 rxtx = -1
                then d0\<lparr>startsample := (startsample d0)(rxtx := samplenum d0)\<rparr>
                else d0)
      in case shift_in opts (datavalue d1 rxtx) signal of
           Inl e \<Rightarrow> Inl (e, [])
         | Inr v \<Rightarrow>
            (let d2 = d1\<lparr>datavalue := (datavalue d1)(rxtx := v)\<rparr>;
                 o_bit = putg d2 (Ann (line_num rxtx + 12) [py_format_int 10 0 signal]);
                 s = samplenum d2;
                 halfbit = py_int (bit_width d2 / 2);
                 d3 = d2\<lparr>databits := (databits d2)
                          (rxtx := databits d2 rxtx @ [(signal, s - halfbit, s + halfbit)])\<rparr>;
                 d4 = d3\<lparr>cur_data_bit := (cur_data_bit d3)(rxtx := cur_data_bit d3 rxtx + 1)\<rparr>
             in if cur_data_bit d4 rxtx < num_data_bits opts then Inr (d4, [o_bit])
                else
                  (let o_data = putpx d4 rxtx (Python ''DATA'' (line_num rxtx)
                                  (PData (datavalue d4 rxtx) (databits d4 rxtx)));
                       b = datavalue d4 rxtx;
                       o_fmt = (case format_value opts b of
                                  None \<Rightarrow> []
                                | Some formatted \<Rightarrow>
                                    [putx d4 rxtx (Ann (line_num rxtx) [formatted])])
                   in case to_bytes b (bw opts) of
                        Inl e \<Rightarrow> Inl (e, [o_bit, o_data] @ o_fmt)
                      | Inr bdata \<Rightarrow>
                         (let o_bin1 = putbin d4 rxtx (Binary (line_num rxtx) bdata);
                              o_bin2 = putbin d4 rxtx (Binary 2 bdata);
                              d5 = d4\<lparr>databits := (databits d4)(rxtx := [])\<rparr>;
                              d6 = d5\<lparr>state := (state d5)(rxtx := GET_PARITY_BIT)\<rparr>;
                              d7 = (if parity_type opts = ''none''
                                    then d6\<lparr>state := (state d6)(rxtx := GET_STOP_BITS)\<rparr>
                                    else d6)
                          in Inr (d7, [o_bit, o_data] @ o_fmt @ [o_bin1, o_bin2])))))"

text \<open>Python's \<open>if parity_ok(...)\<close> takes the else branch for \<open>False\<close> and for \<open>None\<close>.\<close>

definition get_parity_bit :: "options \<Rightarrow> line \<Rightarrow> int \<Rightarrow> decoder \<Rightarrow> decoder \<times> emitted list" where
  "get_parity_bit opts rxtx signal d0 =
     (let d = d0\<lparr>paritybit := (paritybit d0)(rxtx := signal)\<rparr>;
          outs =
            (if parity_ok (parity_type opts) (paritybit d rxtx) (datavalue d rxtx)
                  (num_data_bits opts) = Some True
             then [putp d (Python ''PARITYBIT'' (line_num rxtx) (PBit (paritybit d rxtx))),
                   putg d (Ann (line_num rxtx + 4) [''Parity bit'', ''Parity'', ''P''])]
             else [putp d (Python ''PARITY ERROR'' (line_num rxtx) (PTuple 0 1)),
                   putg d (Ann (line_num rxtx + 6) [''Parity error'', ''Parity err'', ''PE''])])
      in (d\<lparr>state := (state d)(rxtx := GET_STOP_BITS)\<rparr>, outs))"

definition get_stop_bits :: "line \<Rightarrow> int \<Rightarrow> decoder \<Rightarrow> decoder \<times> emitted list" where
  "get_stop_bits rxtx signal d0 =
     (let d = d0\<lparr>stopbit1 := (stopbit1 d0)(rxtx := signal)\<rparr>;
          o_err =
            (if stopbit1 d rxtx \<noteq> 1
             then [putp d (Python ''INVALID STOPBIT'' (line_num rxtx) (PBit (stopbit1 d rxtx))),
                   putg d (Ann (line_num rxtx + 10) [''Frame error'', ''Frame err'', ''FE''])]
             else []);
          o_stop =
            [putp d (Python ''STOPBIT'' (line_num rxtx) (PBit (stopbit1 d rxtx))),
             putg d (Ann (line_num rxtx + 4) [''Stop bit'', ''Stop'', ''T''])]
      in (d\<lparr>state := (state d)(rxtx := WAIT_FOR_START_BIT)\<rparr>, o_err @ o_stop))"

text \<open>\<open>not signal\<close> is \<open>True\<close>, that is \<open>1\<close>, exactly for a signal equal to \<open>0\<close>.\<close>

definition py_not :: "int \<Rightarrow> int" where
  "py_not signal = (if signal = 0 then 1 else 0)"

definition inspect_sample ::
  "options \<Rightarrow> line \<Rightarrow> int \<Rightarrow> bool \<Rightarrow> decoder \<Rightarrow> (error \<times> emitted list) + (decoder \<times> emitted list)" where
  "inspect_sample opts rxtx signal0 invert d =
     (let signal = (if invert then py_not signal0 else signal0);
          st = state d rxtx
      in if st = WAIT_FOR_START_BIT then Inr (wait_for_start_bit rxtx signal d)
         else if st = GET_START_BIT then Inr (get_start_bit rxtx signal d)
         else if st = GET_DATA_BITS then get_data_bits opts rxtx signal d
         else if st = GET_PARITY_BIT then Inr (get_parity_bit opts rxtx signal d)
         else Inr (get_stop_bits rxtx signal d))"

subsection \<open>Driver loop\<close>

text \<open>
  The host's \<open>self.wait(conds)\<close> returns the pin values \<open>(rx, tx)\<close> and sets
  \<open>self.samplenum\<close> and \<open>self.matched\<close>. The host is a function of its own state and
  the conditions; \<open>None\<close> is the end of the sample stream, which ends the run.
\<close>

record wait_result =
  w_samplenum :: int
  w_rx :: int
  w_tx :: int
  w_matched :: "bool list"

type_synonym 'h host = "'h \<Rightarrow> wait_cond list \<Rightarrow> ('h \<times> wait_result) option"

datatype ending = Raised error | EndOfSamples | StillRunning

text \<open>
  \<open>if cond_idx[rxtx] is not None and self.matched[cond_idx[rxtx]]:
  self.inspect_sample(rxtx, pin, inv[rxtx])\<close>; the index into \<open>matched\<close> raises
  \<open>IndexError\<close> out of range.
\<close>

definition dispatch ::
  "options \<Rightarrow> line \<Rightarrow> nat option \<Rightarrow> bool list \<Rightarrow> int \<Rightarrow> bool \<Rightarrow> decoder
     \<Rightarrow> (error \<times> emitted list) + (decoder \<times> emitted list)" where
  "dispatch opts rxtx idx matched pin invert d =
     (case idx of
        None \<Rightarrow> Inr (d, [])
      | Some i \<Rightarrow>
          if i < length matched then
            (if matched ! i then inspect_sample opts rxtx pin invert d else Inr (d, []))
          else Inl (IndexError, []))"

text \<open>
  The \<open>while True\<close> loop of \<open>decode\<close>, run for at most the given number of wait
  cycles. The result is how the run ended, the host's state, the decoder and the
  outputs put so far; after a raise, the decoder is the one before the failing handler.
\<close>

fun decode_loop ::
  "nat \<Rightarrow> 'h host \<Rightarrow> options \<Rightarrow> (line \<Rightarrow> bool) \<Rightarrow> 'h \<Rightarrow> decoder \<Rightarrow> emitted list
     \<Rightarrow> ending \<times> 'h \<times> decoder \<times> emitted list" where
  "decode_loop 0 wait opts has_pin h d outs = (StillRunning, h, d, outs)"
| "decode_loop (Suc k) wait opts has_pin h d outs =
     (let inv_rx = (invert_rx opts = ''yes'');
          inv_tx = (invert_tx opts = ''yes'');
          conds_rx = (if has_pin RX then [get_wait_cond opts d RX inv_rx] else []);
          idx_rx = (if has_pin RX then Some 0 else None);
          idx_tx = (if has_pin TX then Some (length conds_rx) else None);
          conds = conds_rx @ (if has_pin TX then [get_wait_cond opts d TX inv_tx] else [])
      in case wait h conds of
           None \<Rightarrow> (EndOfSamples, h, d, outs)
         | Some (h1, r) \<Rightarrow>
            (let d1 = d\<lparr>samplenum := w_samplenum r\<rparr> in
             case dispatch opts RX idx_rx (w_matched r) (w_rx r) inv_rx d1 of
               Inl (e, o2) \<Rightarrow> (Raised e, h1, d1, outs @ o2)
             | Inr (d2, o2) \<Rightarrow>
                (case dispatch opts TX idx_tx (w_matched r) (w_tx r) inv_tx d2 of
                   Inl (e, o3) \<Rightarrow> (Raised e, h1, d2, outs @ o2 @ o3)
                 | Inr (d3, o3) \<Rightarrow>
                     decode_loop k wait opts has_pin h1 d3 (outs @ o2 @ o3))))"

text \<open>\<open>not self.samplerate\<close> holds for \<open>None\<close> and for \<open>0\<close>.\<close>

definition decode ::
  "nat \<Rightarrow> 'h host \<Rightarrow> options \<Rightarrow> (line \<Rightarrow> bool) \<Rightarrow> 'h \<Rightarrow> decoder
     \<Rightarrow> ending \<times> 'h \<times> decoder \<times> emitted list" where
  "decode fuel wait opts has_channel h d =
     (if samplerate d = None \<or> samplerate d = Some 0 then
        (Raised (SamplerateError ''Cannot decode without samplerate.''), h, d, [])
      else if [has_channel RX, has_channel TX] = [False, False] then
        (Raised (ChannelError ''Either TX or RX (or both) pins required.''), h, d, [])
      else decode_loop fuel wait opts has_channel h d [])"

subsection \<open>Notions of the specification\<close>

text \<open>
  Reading a numeral back in base \<open>b\<close>: the inverse of the formatting rule, for
  digits \<open>0\<close> to \<open>9\<close> and \<open>A\<close> to \<open>F\<close>. \<open>None\<close> for a character that is no digit of
  the base and for the empty string.
\<close>

definition digit_val :: "nat \<Rightarrow> char \<Rightarrow> nat option" where
  "digit_val b c =
     (let k = (of_char c :: nat);
          x = (if 48 \<le> k \<and> k < 58 then Some (k - 48)
               else if 65 \<le> k \<and> k < 71 then Some (k - 55) else None)
      in case x of None \<Rightarrow> None | Some y \<Rightarrow> if y < b then Some y else None)"

fun parse_digits :: "nat \<Rightarrow> nat \<Rightarrow> string \<Rightarrow> nat option" where
  "parse_digits b acc [] = Some acc"
| "parse_digits b acc (c # cs) =
     (case digit_val b c of None \<Rightarrow> None | Some x \<Rightarrow> parse_digits b (acc * b + x) cs)"

definition parse_base :: "nat \<Rightarrow> string \<Rightarrow> int option" where
  "parse_base b s = (if s = [] then None else map_option int (parse_digits b 0 s))"

text \<open>The base in which each numeric display format is read back.\<close>

definition format_base :: "string \<Rightarrow> nat" where
  "format_base fmt =
     (if fmt = ''hex'' then 16 else if fmt = ''oct'' then 8
      else if fmt = ''bin'' then 2 else 10)"

text \<open>
  The integer a sequence of received bits stands for: the first bit is bit \<open>0\<close>
  (lsb-first), or the last one is (msb-first).
\<close>

fun lsb_first_value :: "int list \<Rightarrow> int" where
  "lsb_first_value [] = 0"
| "lsb_first_value (b # bs) = b + 2 * lsb_first_value bs"

definition msb_first_value :: "int list \<Rightarrow> int" where
  "msb_first_value bs = lsb_first_value (rev bs)"

definition bits_value :: "options \<Rightarrow> int list \<Rightarrow> int" where
  "bits_value opts bs =
     (if bit_order opts = ''lsb-first'' then lsb_first_value bs else msb_first_value bs)"

text \<open>Folding a bit sequence, in arrival order, through the accumulation step.\<close>

fun fold_bits :: "options \<Rightarrow> int \<Rightarrow> int list \<Rightarrow> error + int" where
  "fold_bits opts v [] = Inr v"
| "fold_bits opts v (b # bs) =
     (case shift_in opts v b of Inl e \<Rightarrow> Inl e | Inr v1 \<Rightarrow> fold_bits opts v1 bs)"

text \<open>The options the host accepts for the data-bit count.\<close>

definition valid_data_bits :: "options \<Rightarrow> bool" where
  "valid_data_bits opts = (5 \<le> num_data_bits opts \<and> num_data_bits opts \<le> 9)"




text \<open>
  A host that replays a list of results, one per wait cycle, and stops at a result that
  does not fit the conditions.
\<close>

definition replay :: "wait_result list host" where
  "replay h conds =
     (case h of
        [] \<Rightarrow> None
      | r # rs \<Rightarrow>
          if length (w_matched r) = length conds \<and> (w_rx r = 0 \<or> w_rx r = 1)
             \<and> (w_tx r = 0 \<or> w_tx r = 1)
          then Some (rs, r) else None)"



section \<open>Properties\<close>

subsection \<open>Digits and set bits\<close>

lemma digit_char_0: "digit_char 0 = CHR ''0''"
  by code_simp

lemma digit_char_1: "digit_char (Suc 0) = CHR ''1''"
  by code_simp

lemma digit_char_bit: "n < 2 \<Longrightarrow> (digit_char n = CHR ''1'') = (n = 1)"
  by (cases n) (auto simp: digit_char_0 digit_char_1)

lemma count_ones_to_base:
  "length (filter (\<lambda>x. x = CHR ''1'') (to_base 2 n)) = popcount_nat n"
proof (induction n rule: less_induct)
  case (less n)
  show ?case
  proof (cases "n < 2")
    case True
    then have "n = 0 \<or> n = 1" by arith
    then show ?thesis
      by (auto simp: to_base.simps [of 2 0] to_base.simps [of 2 "Suc 0"]
          digit_char_0 digit_char_1 popcount_nat.simps [of 0] popcount_nat.simps [of "Suc 0"])
  next
    case False
    then have step: "n div 2 < n" and pos: "n \<noteq> 0" by simp_all
    have "to_base 2 n = to_base 2 (n div 2) @ [digit_char (n mod 2)]"
      using False by (subst to_base.simps) simp
    moreover have "length (filter (\<lambda>x. x = CHR ''1'') [digit_char (n mod 2)]) = n mod 2"
      using digit_char_bit [of "n mod 2"] by (cases "n mod 2 = 1") auto
    moreover have "popcount_nat n = n mod 2 + popcount_nat (n div 2)"
      using pos by (subst popcount_nat.simps) simp
    ultimately show ?thesis
      using less.IH [OF step] by simp
  qed
qed

lemma py_count_bin: "py_count (py_bin v) (CHR ''1'') = popcount v"
  by (simp add: py_count_def py_bin_def popcount_def count_ones_to_base)

subsection \<open>Formatting and reading back numerals\<close>

lemma digit_val_digit_char: "k < b \<Longrightarrow> b \<le> 16 \<Longrightarrow> digit_val b (digit_char k) = Some k"
  by (auto simp: digit_val_def digit_char_def Let_def of_char_of)

lemma parse_digits_append:
  "parse_digits b acc (xs @ ys) =
     (case parse_digits b acc xs of None \<Rightarrow> None | Some a \<Rightarrow> parse_digits b a ys)"
  by (induction xs arbitrary: acc) (auto split: option.splits)

lemma parse_digits_to_base:
  "2 \<le> b \<Longrightarrow> b \<le> 16 \<Longrightarrow> parse_digits b 0 (to_base b n) = Some n"
proof (induction n rule: less_induct)
  case (less n)
  show ?case
  proof (cases "n < b")
    case True
    then show ?thesis
      using less.prems by (subst to_base.simps) (simp add: digit_val_digit_char)
  next
    case False
    with less.prems have step: "n div b < n" by simp
    have md: "n mod b < b" using less.prems by simp
    have "to_base b n = to_base b (n div b) @ [digit_char (n mod b)]"
      using False less.prems by (subst to_base.simps) simp
    then show ?thesis
      using less.IH [OF step less.prems] less.prems md
      by (simp add: parse_digits_append digit_val_digit_char)
  qed
qed

lemma to_base_nonempty: "to_base b n \<noteq> []"
  by (subst to_base.simps) simp

lemma digit_char_nonzero: "0 < k \<Longrightarrow> k < 16 \<Longrightarrow> digit_char k \<noteq> CHR ''0''"
proof
  assume k: "0 < k" "k < 16" and eq: "digit_char k = CHR ''0''"
  have "digit_val 16 (digit_char k) = Some k" using k by (simp add: digit_val_digit_char)
  moreover have "digit_val 16 (CHR ''0'') = Some 0" by code_simp
  ultimately show False using eq k by simp
qed

lemma hd_to_base:
  "2 \<le> b \<Longrightarrow> b \<le> 16 \<Longrightarrow> 0 < n \<Longrightarrow> hd (to_base b n) \<noteq> CHR ''0''"
proof (induction n rule: less_induct)
  case (less n)
  show ?case
  proof (cases "n < b")
    case True
    then show ?thesis
      using less.prems by (subst to_base.simps) (simp add: digit_char_nonzero)
  next
    case False
    with less.prems have step: "n div b < n" and pos: "0 < n div b"
      by (simp_all add: div_greater_zero_iff)
    have "to_base b n = to_base b (n div b) @ [digit_char (n mod b)]"
      using False less.prems by (subst to_base.simps) simp
    then show ?thesis
      using less.IH [OF step less.prems(1,2) pos] by (simp add: to_base_nonempty)
  qed
qed

lemma length_to_base:
  "2 \<le> b \<Longrightarrow> 0 < w \<Longrightarrow> n < b ^ w \<Longrightarrow> length (to_base b n) \<le> w"
proof (induction w arbitrary: n)
  case 0
  then show ?case by simp
next
  case (Suc w)
  show ?case
  proof (cases "n < b")
    case True
    then show ?thesis by (subst to_base.simps) simp
  next
    case False
    have w: "0 < w"
    proof (rule ccontr)
      assume "\<not> 0 < w"
      then show False using Suc.prems False by simp
    qed
    have "n div b < b ^ w"
      using Suc.prems by (simp add: less_mult_imp_div_less mult.commute)
    then have "length (to_base b (n div b)) \<le> w"
      using Suc.IH [OF Suc.prems(1) w] by simp
    moreover have "to_base b n = to_base b (n div b) @ [digit_char (n mod b)]"
      using False Suc.prems by (subst to_base.simps) simp
    ultimately show ?thesis by simp
  qed
qed

lemma parse_digits_zeros:
  "0 < b \<Longrightarrow> parse_digits b 0 (replicate k (CHR ''0'') @ s) = parse_digits b 0 s"
proof (induction k)
  case 0
  then show ?case by simp
next
  case (Suc k)
  have "digit_val b (CHR ''0'') = Some 0"
    using Suc.prems by (simp add: digit_val_def)
  then show ?case using Suc by simp
qed

lemma py_format_int_nonneg:
  "0 \<le> v \<Longrightarrow> py_format_int b w v =
     replicate (w - length (to_base b (nat v))) (CHR ''0'') @ to_base b (nat v)"
  by (simp add: py_format_int_def Let_def)

lemma parse_py_format_int:
  "2 \<le> b \<Longrightarrow> b \<le> 16 \<Longrightarrow> 0 \<le> v \<Longrightarrow> parse_base b (py_format_int b w v) = Some v"
  by (simp add: parse_base_def py_format_int_nonneg to_base_nonempty parse_digits_zeros
      parse_digits_to_base)

lemma length_py_format_int:
  "2 \<le> b \<Longrightarrow> 0 < w \<Longrightarrow> 0 \<le> v \<Longrightarrow> v < int b ^ w \<Longrightarrow> length (py_format_int b w v) = w"
proof -
  assume a: "2 \<le> b" "0 < w" "0 \<le> v" "v < int b ^ w"
  then have "nat v < b ^ w"
    by (metis nat_less_iff of_nat_power)
  then have "length (to_base b (nat v)) \<le> w"
    using a by (simp add: length_to_base)
  then show ?thesis using a by (simp add: py_format_int_nonneg)
qed

lemma ceil_div4: "\<lceil>(of_int a :: rat) / 4\<rceil> = (a + 4 - 1) div 4"
proof -
  have "\<lceil>(of_int a :: rat) / of_int 4\<rceil> = - (- a div 4)"
    by (rule ceiling_divide_eq_div)
  also have "- (- a div 4) = (a + 4 - 1) div 4" by presburger
  finally show ?thesis by simp
qed

lemma ceil_div3: "\<lceil>(of_int a :: rat) / 3\<rceil> = (a + 3 - 1) div 3"
proof -
  have "\<lceil>(of_int a :: rat) / of_int 3\<rceil> = - (- a div 3)"
    by (rule ceiling_divide_eq_div)
  also have "- (- a div 3) = (a + 3 - 1) div 3" by presburger
  finally show ?thesis by simp
qed


lemma data_bits_cases:
  "valid_data_bits opts \<Longrightarrow>
     num_data_bits opts = 5 \<or> num_data_bits opts = 6 \<or> num_data_bits opts = 7 \<or>
     num_data_bits opts = 8 \<or> num_data_bits opts = 9"
  by (auto simp: valid_data_bits_def)

lemma format_hex_width:
  assumes "valid_data_bits opts" "0 \<le> v" "v < 2 ^ nat (num_data_bits opts)"
  shows "length (py_format_int 16 (nat ((num_data_bits opts + 4 - 1) div 4)) v)
           = nat ((num_data_bits opts + 4 - 1) div 4)"
  using data_bits_cases [OF assms(1)] assms(2,3)
  by (auto intro!: length_py_format_int)

lemma format_oct_width:
  assumes "valid_data_bits opts" "0 \<le> v" "v < 2 ^ nat (num_data_bits opts)"
  shows "length (py_format_int 8 (nat ((num_data_bits opts + 3 - 1) div 3)) v)
           = nat ((num_data_bits opts + 3 - 1) div 3)"
  using data_bits_cases [OF assms(1)] assms(2,3)
  by (auto intro!: length_py_format_int)

lemma format_bin_width:
  assumes "valid_data_bits opts" "0 \<le> v" "v < 2 ^ nat (num_data_bits opts)"
  shows "length (py_format_int 2 (nat (num_data_bits opts)) v) = nat (num_data_bits opts)"
  using data_bits_cases [OF assms(1)] assms(2,3)
  by (auto intro!: length_py_format_int)

lemma format_bracket_width:
  assumes "valid_data_bits opts" "0 \<le> v" "v < 2 ^ nat (num_data_bits opts)"
  shows "length (py_format_int 16 (if num_data_bits opts \<le> 8 then 2 else 3) v)
           = (if num_data_bits opts \<le> 8 then 2 else 3)"
  using data_bits_cases [OF assms(1)] assms(2,3)
  by (auto intro!: length_py_format_int)

lemma format_dec_plain:
  assumes "0 \<le> v"
  shows "py_format_int 10 0 v = ''0'' \<or> hd (py_format_int 10 0 v) \<noteq> CHR ''0''"
proof (cases "v = 0")
  case True
  have "py_format_int 10 0 0 = ''0''" by code_simp
  then show ?thesis using True by simp
next
  case False
  then have "0 < nat v" using assms by simp
  then have "hd (to_base 10 (nat v)) \<noteq> CHR ''0''" by (simp add: hd_to_base)
  then show ?thesis using assms by (simp add: py_format_int_nonneg)
qed

lemma format_examples:
  "[char_of (65 :: int)] = ''A''"
  "py_format_int 16 2 200 = ''C8''"
  "py_format_int 16 2 10 = ''0A''"
  "py_format_int 2 5 5 = ''00101''"
  by code_simp+

subsection \<open>Parity validation\<close>

text \<open>
  C2. For each of the four checked parity modes, every parity bit and every data value,
  \<open>parity_ok\<close> returns: for \<open>zero\<close>, whether the parity bit is \<open>0\<close>; for \<open>one\<close>,
  whether it is \<open>1\<close>; for \<open>odd\<close>, whether the number of set bits of the data plus the
  parity bit is odd; for \<open>even\<close>, whether that sum is even.
\<close>

theorem parity_ok_rule:
  "parity_ok ''zero'' pb data n = Some (pb = 0) \<and>
   parity_ok ''one'' pb data n = Some (pb = 1) \<and>
   parity_ok ''odd'' pb data n = Some (odd (popcount data + pb)) \<and>
   parity_ok ''even'' pb data n = Some (even (popcount data + pb))"
  by (simp add: parity_ok_def py_count_bin odd_iff_mod_2_eq_one even_iff_mod_2_eq_zero)

theorem parity_ok_rule_witness:
  "parity_ok ''zero'' 1 65 8 = Some False \<and>
   parity_ok ''one'' 1 65 8 = Some True \<and>
   parity_ok ''odd'' 1 65 8 = Some True \<and>
   parity_ok ''even'' 1 65 8 = Some False"
proof -
  have p: "popcount 65 = 2" by code_simp
  show ?thesis using parity_ok_rule [of 1 65 8] by (simp add: p)
qed

subsection \<open>Value formatting\<close>

text \<open>
  C10. For a data value \<open>v\<close> of the configured width (5 to 9 bits), \<open>format_value\<close>
  gives: for \<open>ascii\<close>, the single character with code \<open>v\<close> when \<open>32 \<le> v \<le> 126\<close>,
  and otherwise a bracketed upper-case hexadecimal numeral of \<open>v\<close> with 2 digits for at
  most 8 data bits and 3 digits for 9; for \<open>dec\<close>, the decimal numeral of \<open>v\<close> without
  padding; for \<open>hex\<close>, \<open>oct\<close> and \<open>bin\<close>, the numeral of \<open>v\<close> padded with zeros to
  \<open>\<lceil>bits / 4\<rceil>\<close>, \<open>\<lceil>bits / 3\<rceil>\<close> and \<open>bits\<close> digits. In particular \<open>65\<close> and
  \<open>200\<close> in \<open>ascii\<close> with 8 bits are \<open>A\<close> and \<open>[C8]\<close>, \<open>10\<close> in \<open>hex\<close> with 8 bits is
  \<open>0A\<close>, and \<open>5\<close> in \<open>bin\<close> with 5 bits is \<open>00101\<close>.
\<close>

theorem format_value_rule:
  assumes vb: "valid_data_bits opts" and v0: "0 \<le> v"
    and vn: "v < 2 ^ nat (num_data_bits opts)"
  shows
    "(format opts = ''ascii'' \<and> 32 \<le> v \<and> v \<le> 126 \<longrightarrow>
        (\<exists>c. format_value opts v = Some [c] \<and> of_char c = v)) \<and>
     (format opts = ''ascii'' \<and> (v < 32 \<or> 126 < v) \<longrightarrow>
        (\<exists>s. format_value opts v = Some (''['' @ s @ '']'') \<and>
             length s = (if num_data_bits opts \<le> 8 then 2 else 3) \<and>
             parse_base 16 s = Some v)) \<and>
     (format opts = ''dec'' \<longrightarrow>
        (\<exists>s. format_value opts v = Some s \<and> parse_base 10 s = Some v \<and>
             (s = ''0'' \<or> hd s \<noteq> CHR ''0''))) \<and>
     (format opts = ''hex'' \<longrightarrow>
        (\<exists>s. format_value opts v = Some s \<and> parse_base 16 s = Some v \<and>
             int (length s) = \<lceil>(of_int (num_data_bits opts) :: rat) / 4\<rceil>)) \<and>
     (format opts = ''oct'' \<longrightarrow>
        (\<exists>s. format_value opts v = Some s \<and> parse_base 8 s = Some v \<and>
             int (length s) = \<lceil>(of_int (num_data_bits opts) :: rat) / 3\<rceil>)) \<and>
     (format opts = ''bin'' \<longrightarrow>
        (\<exists>s. format_value opts v = Some s \<and> parse_base 2 s = Some v \<and>
             int (length s) = num_data_bits opts)) \<and>
     (\<forall>o8. format o8 = ''ascii'' \<and> num_data_bits o8 = 8 \<longrightarrow>
        format_value o8 65 = Some ''A'' \<and> format_value o8 200 = Some ''[C8]'') \<and>
     (\<forall>o8. format o8 = ''hex'' \<and> num_data_bits o8 = 8 \<longrightarrow>
        format_value o8 10 = Some ''0A'') \<and>
     (\<forall>o5. format o5 = ''bin'' \<and> num_data_bits o5 = 5 \<longrightarrow>
        format_value o5 5 = Some ''00101'')"
proof -
  have bits: "5 \<le> num_data_bits opts" "num_data_bits opts \<le> 9"
    using vb by (simp_all add: valid_data_bits_def)
  have printable: "format opts = ''ascii'' \<and> 32 \<le> v \<and> v \<le> 126 \<longrightarrow>
        (\<exists>c. format_value opts v = Some [c] \<and> of_char c = v)"
    by (auto simp: format_value_def of_char_of)
  have bracket: "format opts = ''ascii'' \<and> (v < 32 \<or> 126 < v) \<longrightarrow>
        (\<exists>s. format_value opts v = Some (''['' @ s @ '']'') \<and>
             length s = (if num_data_bits opts \<le> 8 then 2 else 3) \<and>
             parse_base 16 s = Some v)"
    using format_bracket_width [OF vb v0 vn] v0
    by (auto simp: format_value_def parse_py_format_int)
  have dec: "format opts = ''dec'' \<longrightarrow>
        (\<exists>s. format_value opts v = Some s \<and> parse_base 10 s = Some v \<and>
             (s = ''0'' \<or> hd s \<noteq> CHR ''0''))"
    using format_dec_plain [OF v0] v0
    by (auto simp: format_value_def parse_py_format_int)
  have hex: "format opts = ''hex'' \<longrightarrow>
        (\<exists>s. format_value opts v = Some s \<and> parse_base 16 s = Some v \<and>
             int (length s) = \<lceil>(of_int (num_data_bits opts) :: rat) / 4\<rceil>)"
    using format_hex_width [OF vb v0 vn] v0 bits
    by (simp add: format_value_def parse_py_format_int ceil_div4)
  have oct: "format opts = ''oct'' \<longrightarrow>
        (\<exists>s. format_value opts v = Some s \<and> parse_base 8 s = Some v \<and>
             int (length s) = \<lceil>(of_int (num_data_bits opts) :: rat) / 3\<rceil>)"
    using format_oct_width [OF vb v0 vn] v0 bits
    by (simp add: format_value_def parse_py_format_int ceil_div3)
  have bin: "format opts = ''bin'' \<longrightarrow>
        (\<exists>s. format_value opts v = Some s \<and> parse_base 2 s = Some v \<and>
             int (length s) = num_data_bits opts)"
    using format_bin_width [OF vb v0 vn] v0 bits
    by (simp add: format_value_def parse_py_format_int)
  have ex1: "\<forall>o8. format o8 = ''ascii'' \<and> num_data_bits o8 = 8 \<longrightarrow>
        format_value o8 65 = Some ''A'' \<and> format_value o8 200 = Some ''[C8]''"
    using format_examples by (simp add: format_value_def)
  have ex2: "\<forall>o8. format o8 = ''hex'' \<and> num_data_bits o8 = 8 \<longrightarrow>
        format_value o8 10 = Some ''0A''"
    using format_examples by (simp add: format_value_def)
  have ex3: "\<forall>o5. format o5 = ''bin'' \<and> num_data_bits o5 = 5 \<longrightarrow>
        format_value o5 5 = Some ''00101''"
    using format_examples by (simp add: format_value_def)
  from printable bracket dec hex oct bin ex1 ex2 ex3 show ?thesis by blast
qed

theorem format_value_rule_witness:
  "valid_data_bits default_options \<and> (0 :: int) \<le> 10 \<and>
   (10 :: int) < 2 ^ nat (num_data_bits default_options) \<and>
   (\<exists>s. format_value default_options 10 = Some s \<and> parse_base 16 s = Some 10 \<and>
        int (length s) = 2)"
proof -
  have h1: "valid_data_bits default_options"
    by (simp add: valid_data_bits_def default_options_def)
  have h2: "(0 :: int) \<le> 10" by simp
  have h3: "(10 :: int) < 2 ^ nat (num_data_bits default_options)"
    by (simp add: default_options_def)
  have c: "\<lceil>(of_int (num_data_bits default_options) :: rat) / 4\<rceil> = 2"
    by (simp add: ceil_div4 default_options_def)
  have f: "format default_options = ''hex''" by (simp add: default_options_def)
  show ?thesis
    using format_value_rule [OF h1 h2 h3] h1 h3 c f by simp
qed

subsection \<open>Accumulating data bits\<close>

lemma lsb_first_value_bounds:
  "list_all (\<lambda>b. b = 0 \<or> b = 1) bs \<Longrightarrow>
     0 \<le> lsb_first_value bs \<and> lsb_first_value bs < 2 ^ length bs"
  by (induction bs) auto

lemma lsb_first_value_append:
  "lsb_first_value (as @ bs) = lsb_first_value as + lsb_first_value bs * 2 ^ length as"
  by (induction as) (auto simp: algebra_simps)

lemma msb_first_value_snoc: "msb_first_value (as @ [b]) = b + 2 * msb_first_value as"
  by (simp add: msb_first_value_def)

lemma msb_first_value_bounds:
  "list_all (\<lambda>b. b = 0 \<or> b = 1) bs \<Longrightarrow>
     0 \<le> msb_first_value bs \<and> msb_first_value bs < 2 ^ length bs"
  using lsb_first_value_bounds [of "rev bs"] by (simp add: msb_first_value_def)

lemma or_high_bit:
  fixes y :: int
  assumes "0 \<le> y" "y < 2 ^ m" "b = 0 \<or> b = 1"
  shows "y OR push_bit m b = y + b * 2 ^ m"
proof (cases "b = 0")
  case True
  then show ?thesis by simp
next
  case False
  then have b: "b = 1" using assms by simp
  have "y div 2 ^ m = 0" using assms by simp
  then have "\<not> bit y m" by (simp add: bit_iff_odd)
  then have "y AND 2 ^ m = 0" by (simp add: and_exp_eq_0_iff_not_bit)
  then have "y + 2 ^ m = y OR 2 ^ m" by (rule disjunctive_add_eq_or)
  then show ?thesis using b by simp
qed

lemma or_low_bit:
  fixes v :: int
  assumes "b = 0 \<or> b = 1"
  shows "v * 2 OR b = b + 2 * v"
proof -
  have "v * 2 AND b = 0"
    using assms by (auto simp: and_one_eq)
  then have "v * 2 + b = v * 2 OR b" by (rule disjunctive_add_eq_or)
  then show ?thesis by simp
qed

lemma shift_in_lsb:
  assumes lsb: "bit_order opts = ''lsb-first''"
    and bits: "list_all (\<lambda>b. b = 0 \<or> b = 1) as" and b: "b = 0 \<or> b = 1"
    and k: "int (length as) < num_data_bits opts"
  shows "shift_in opts (lsb_first_value as * 2 ^ (nat (num_data_bits opts) - length as)) b
           = Inr (lsb_first_value (as @ [b]) * 2 ^ (nat (num_data_bits opts) - length as - 1))"
proof -
  define n where "n = nat (num_data_bits opts)"
  define m where "m = n - length as - 1"
  have n: "length as < n" "num_data_bits opts = int n" using k by (simp_all add: n_def)
  have exps: "n - length as = Suc m" "n - 1 = m + length as" "nat (int n - 1) = n - 1"
    using n by (simp_all add: m_def)
  have x: "0 \<le> lsb_first_value as" "lsb_first_value as < 2 ^ length as"
    using lsb_first_value_bounds [OF bits] by simp_all
  have y0: "0 \<le> lsb_first_value as * 2 ^ m" using x by simp
  have "lsb_first_value as * 2 ^ m < 2 ^ length as * 2 ^ m"
    using x by (simp add: mult_strict_right_mono)
  moreover have "(2 :: int) ^ length as * 2 ^ m = 2 ^ (n - 1)"
    by (subst exps(2)) (simp add: power_add)
  ultimately have y1: "lsb_first_value as * 2 ^ m < 2 ^ (n - 1)" by simp
  have "drop_bit 1 (lsb_first_value as * 2 ^ Suc m) = lsb_first_value as * 2 ^ m"
    by (simp add: drop_bit_eq_div)
  moreover have "lsb_first_value as * 2 ^ m OR push_bit (n - 1) b
      = lsb_first_value as * 2 ^ m + b * 2 ^ (n - 1)"
    using or_high_bit [OF y0 y1 b] .
  moreover have "(2 :: int) ^ (n - Suc 0) = 2 ^ m * 2 ^ length as"
    using exps(2) by (simp add: power_add)
  ultimately show ?thesis
    using n lsb
    by (simp add: shift_in_def lsb_first_value_append exps n_def [symmetric] m_def [symmetric]
        algebra_simps power_add)
qed

lemma shift_in_msb:
  assumes "bit_order opts \<noteq> ''lsb-first''" and "b = 0 \<or> b = 1"
  shows "shift_in opts (msb_first_value as) b = Inr (msb_first_value (as @ [b]))"
  using assms by (simp add: shift_in_def or_low_bit msb_first_value_snoc)


lemma fold_bits_lsb:
  assumes lsb: "bit_order opts = ''lsb-first''"
  shows "list_all (\<lambda>b. b = 0 \<or> b = 1) as \<Longrightarrow> list_all (\<lambda>b. b = 0 \<or> b = 1) bs \<Longrightarrow>
     int (length as + length bs) \<le> num_data_bits opts \<Longrightarrow>
     fold_bits opts (lsb_first_value as * 2 ^ (nat (num_data_bits opts) - length as)) bs
       = Inr (lsb_first_value (as @ bs)
               * 2 ^ (nat (num_data_bits opts) - length as - length bs))"
proof (induction bs arbitrary: as)
  case Nil
  then show ?case by simp
next
  case (Cons b bs)
  have b: "b = 0 \<or> b = 1" and rest: "list_all (\<lambda>b. b = 0 \<or> b = 1) bs"
    using Cons.prems(2) by simp_all
  have k: "int (length as) < num_data_bits opts" using Cons.prems(3) by simp
  have as': "list_all (\<lambda>b. b = 0 \<or> b = 1) (as @ [b])"
    using Cons.prems(1) b by simp
  have len: "int (length (as @ [b]) + length bs) \<le> num_data_bits opts"
    using Cons.prems(3) by simp
  have "fold_bits opts (lsb_first_value as * 2 ^ (nat (num_data_bits opts) - length as)) (b # bs)
      = fold_bits opts
          (lsb_first_value (as @ [b]) * 2 ^ (nat (num_data_bits opts) - length (as @ [b]))) bs"
    using shift_in_lsb [OF lsb Cons.prems(1) b k] by simp
  also have "\<dots> = Inr (lsb_first_value ((as @ [b]) @ bs)
               * 2 ^ (nat (num_data_bits opts) - length (as @ [b]) - length bs))"
    by (rule Cons.IH [OF as' rest len])
  finally show ?case by simp
qed

lemma fold_bits_msb:
  assumes msb: "bit_order opts \<noteq> ''lsb-first''"
  shows "list_all (\<lambda>b. b = 0 \<or> b = 1) bs \<Longrightarrow>
     fold_bits opts (msb_first_value as) bs = Inr (msb_first_value (as @ bs))"
proof (induction bs arbitrary: as)
  case Nil
  then show ?case by simp
next
  case (Cons b bs)
  have b: "b = 0 \<or> b = 1" and rest: "list_all (\<lambda>b. b = 0 \<or> b = 1) bs"
    using Cons.prems by simp_all
  show ?case
    using shift_in_msb [OF msb b, of as] Cons.IH [OF rest, of "as @ [b]"] by simp
qed

lemma fold_bits_value:
  assumes "list_all (\<lambda>b. b = 0 \<or> b = 1) bs" "int (length bs) = num_data_bits opts"
  shows "fold_bits opts 0 bs = Inr (bits_value opts bs)"
proof (cases "bit_order opts = ''lsb-first''")
  case True
  have "fold_bits opts (lsb_first_value [] * 2 ^ (nat (num_data_bits opts) - length ([] :: int list))) bs
      = Inr (lsb_first_value ([] @ bs)
               * 2 ^ (nat (num_data_bits opts) - length ([] :: int list) - length bs))"
    using assms by (intro fold_bits_lsb [OF True]) simp_all
  moreover have "nat (num_data_bits opts) - length bs = 0" using assms by simp
  ultimately show ?thesis using True by (simp add: bits_value_def)
next
  case False
  show ?thesis
    using fold_bits_msb [OF False assms(1), of "[]"] False
    by (simp add: bits_value_def msb_first_value_def)
qed

lemma bit_lsb_first_value:
  "list_all (\<lambda>b. b = 0 \<or> b = 1) bs \<Longrightarrow> i < length bs \<Longrightarrow>
     bit (lsb_first_value bs) i = (bs ! i = 1)"
proof (induction bs arbitrary: i)
  case Nil
  then show ?case by simp
next
  case (Cons b bs)
  have b: "b = 0 \<or> b = 1" using Cons.prems by simp
  show ?case
  proof (cases i)
    case 0
    then show ?thesis using b by (auto simp: bit_0)
  next
    case (Suc j)
    have "(b + 2 * lsb_first_value bs) div 2 = lsb_first_value bs" using b by auto
    then show ?thesis using Suc Cons by (simp add: bit_Suc)
  qed
qed

lemma bit_msb_first_value:
  "list_all (\<lambda>b. b = 0 \<or> b = 1) bs \<Longrightarrow> i < length bs \<Longrightarrow>
     bit (msb_first_value bs) i = (bs ! (length bs - 1 - i) = 1)"
  using bit_lsb_first_value [of "rev bs" i] by (simp add: msb_first_value_def rev_nth)

lemma bits_value_bounds:
  "list_all (\<lambda>b. b = 0 \<or> b = 1) bs \<Longrightarrow>
     0 \<le> bits_value opts bs \<and> bits_value opts bs < 2 ^ length bs"
  using lsb_first_value_bounds [of bs] msb_first_value_bounds [of bs]
  by (simp add: bits_value_def)

lemma format_value_numeric:
  assumes "0 \<le> v" "format opts \<in> {''hex'', ''oct'', ''bin'', ''dec''}"
  shows "\<exists>s. format_value opts v = Some s \<and> parse_base (format_base (format opts)) s = Some v"
  using assms by (auto simp: format_value_def format_base_def parse_py_format_int)

text \<open>
  C3. For every data-bit count from 5 to 9, both bit orders and every bit sequence of
  that length, folding the bits in arrival order through the accumulation step of
  \<open>get_data_bits\<close>, starting from \<open>0\<close>, gives the integer below \<open>2 ^ count\<close> whose bit
  \<open>i\<close> (lsb-first) or bit \<open>count - 1 - i\<close> (msb-first) is the \<open>i\<close>-th received bit; and
  for the formats \<open>hex\<close>, \<open>oct\<close>, \<open>bin\<close> and \<open>dec\<close> reading the formatted value back in
  the format's base gives the same integer.
\<close>

theorem data_bits_round_trip:
  assumes vb: "valid_data_bits opts"
    and len: "int (length bs) = num_data_bits opts"
    and bits: "list_all (\<lambda>b. b = 0 \<or> b = 1) bs"
  shows "\<exists>v. fold_bits opts 0 bs = Inr v \<and> 0 \<le> v \<and> v < 2 ^ length bs \<and>
     (\<forall>i. i < length bs \<longrightarrow>
        bit v i = (bs ! (if bit_order opts = ''lsb-first'' then i else length bs - 1 - i) = 1)) \<and>
     (format opts \<in> {''hex'', ''oct'', ''bin'', ''dec''} \<longrightarrow>
        (\<exists>s. format_value opts v = Some s \<and>
             parse_base (format_base (format opts)) s = Some v))"
proof -
  let ?v = "bits_value opts bs"
  have run: "fold_bits opts 0 bs = Inr ?v" by (rule fold_bits_value [OF bits len])
  have bnd: "0 \<le> ?v" "?v < 2 ^ length bs" using bits_value_bounds [OF bits] by simp_all
  have pos: "\<forall>i. i < length bs \<longrightarrow>
        bit ?v i = (bs ! (if bit_order opts = ''lsb-first'' then i else length bs - 1 - i) = 1)"
    using bits by (simp add: bits_value_def bit_lsb_first_value bit_msb_first_value)
  have rt: "format opts \<in> {''hex'', ''oct'', ''bin'', ''dec''} \<longrightarrow>
        (\<exists>s. format_value opts ?v = Some s \<and>
             parse_base (format_base (format opts)) s = Some ?v)"
    using format_value_numeric [OF bnd(1)] by blast
  from run bnd pos rt show ?thesis by blast
qed

theorem data_bits_round_trip_witness:
  "valid_data_bits default_options \<and>
   int (length [1, 0, 0, 0, 0, 0, 1, 0 :: int]) = num_data_bits default_options \<and>
   list_all (\<lambda>b. b = 0 \<or> b = 1) [1, 0, 0, 0, 0, 0, 1, 0 :: int] \<and>
   fold_bits default_options 0 [1, 0, 0, 0, 0, 0, 1, 0] = Inr 65 \<and>
   format_value default_options 65 = Some ''41'' \<and>
   parse_base (format_base (format default_options)) ''41'' = Some 65"
proof -
  have h1: "valid_data_bits default_options"
    by (simp add: valid_data_bits_def default_options_def)
  have h2: "int (length [1, 0, 0, 0, 0, 0, 1, 0 :: int]) = num_data_bits default_options"
    by (simp add: default_options_def)
  have h3: "list_all (\<lambda>b. b = 0 \<or> b = 1) [1, 0, 0, 0, 0, 0, 1, 0 :: int]" by simp
  have e1: "fold_bits default_options 0 [1, 0, 0, 0, 0, 0, 1, 0] = Inr 65" by code_simp
  have e2: "format_value default_options 65 = Some ''41''" by code_simp
  have f: "format default_options = ''hex''" by (simp add: default_options_def)
  obtain v where v: "fold_bits default_options 0 [1, 0, 0, 0, 0, 0, 1, 0] = Inr v"
    and rt: "format default_options \<in> {''hex'', ''oct'', ''bin'', ''dec''} \<longrightarrow>
      (\<exists>s. format_value default_options v = Some s \<and>
           parse_base (format_base (format default_options)) s = Some v)"
    using data_bits_round_trip [OF h1 h2 h3] by blast
  have "v = 65" using v e1 by simp
  then have "parse_base (format_base (format default_options)) ''41'' = Some 65"
    using rt e2 f by auto
  then show ?thesis using h1 h2 h3 e1 e2 by blast
qed

subsection \<open>Timing predictor\<close>



subsection \<open>Start bit\<close>

text \<open>
  C5. For every line in \<open>GET START BIT\<close>, a sampled start bit that is not \<open>0\<close> (after
  the line's inversion) puts exactly one \<open>INVALID STARTBIT\<close> packet and one frame-error
  annotation, nothing else, and returns the line to \<open>WAIT FOR START BIT\<close>; the other
  line and the data accumulators are untouched.
\<close>

theorem invalid_start_bit:
  assumes st: "state d rxtx = GET_START_BIT"
    and sig: "s = (if invert then py_not signal else signal)"
    and bad: "s \<noteq> 0"
  shows "\<exists>d1. inspect_sample opts rxtx signal invert d =
           Inr (d1,
             [(samplenum d - \<lfloor>bit_width d / 2\<rfloor>, samplenum d + \<lceil>bit_width d / 2\<rceil>,
               Python ''INVALID STARTBIT'' (line_num rxtx) (PBit s)),
              (samplenum d - \<lfloor>bit_width d / 2\<rfloor>, samplenum d + \<lceil>bit_width d / 2\<rceil>,
               Ann (line_num rxtx + 10) [''Frame error'', ''Frame err'', ''FE''])]) \<and>
         state d1 rxtx = WAIT_FOR_START_BIT \<and>
         (\<forall>l. l \<noteq> rxtx \<longrightarrow> state d1 l = state d l) \<and>
         cur_data_bit d1 = cur_data_bit d \<and> datavalue d1 = datavalue d \<and>
         databits d1 = databits d"
  using assms
  by (simp add: inspect_sample_def get_start_bit_def putp_def putg_def Let_def)

theorem invalid_start_bit_witness:
  "state (new_decoder\<lparr>state := (\<lambda>_. GET_START_BIT)\<rparr>) RX = GET_START_BIT \<and>
   (1 :: int) = (if False then py_not 1 else 1) \<and> (1 :: int) \<noteq> 0 \<and>
   (\<exists>d1. inspect_sample default_options RX 1 False
            (new_decoder\<lparr>state := (\<lambda>_. GET_START_BIT)\<rparr>) =
           Inr (d1,
             [(0, 0, Python ''INVALID STARTBIT'' 0 (PBit 1)),
              (0, 0, Ann 10 [''Frame error'', ''Frame err'', ''FE''])]) \<and>
         state d1 RX = WAIT_FOR_START_BIT)"
proof -
  let ?d = "new_decoder\<lparr>state := (\<lambda>_. GET_START_BIT)\<rparr>"
  have h1: "state ?d RX = GET_START_BIT" by simp
  have h2: "(1 :: int) = (if False then py_not 1 else 1)" by simp
  have h3: "(1 :: int) \<noteq> 0" by simp
  have v: "samplenum ?d = 0" "bit_width ?d = 0" "line_num RX = 0"
    by (simp_all add: new_decoder_def reset_def line_num_def)
  show ?thesis
    using invalid_start_bit [OF h1 h2 h3, of default_options] h1 v by auto
qed

subsection \<open>Stop bit\<close>

text \<open>
  C6. For every line in \<open>GET STOP BITS\<close>, a sampled stop bit of \<open>0\<close> puts the
  \<open>INVALID STOPBIT\<close> packet with a frame-error annotation and then the normal
  \<open>STOPBIT\<close> packet with its stop-bit annotation; a stop bit of \<open>1\<close> puts only the
  latter two. Whatever the stop bit, the line goes to \<open>WAIT FOR START BIT\<close>, from where
  the next edge starts a frame and a start bit of \<open>0\<close> is reported as \<open>STARTBIT\<close>.
\<close>

theorem invalid_stop_bit:
  assumes st: "state d rxtx = GET_STOP_BITS"
    and sig: "s = (if invert then py_not signal else signal)"
  shows "\<exists>d1 outs. inspect_sample opts rxtx signal invert d = Inr (d1, outs) \<and>
         state d1 rxtx = WAIT_FOR_START_BIT \<and>
         (s = 0 \<longrightarrow> outs =
             [(samplenum d - \<lfloor>bit_width d / 2\<rfloor>, samplenum d + \<lceil>bit_width d / 2\<rceil>,
               Python ''INVALID STOPBIT'' (line_num rxtx) (PBit 0)),
              (samplenum d - \<lfloor>bit_width d / 2\<rfloor>, samplenum d + \<lceil>bit_width d / 2\<rceil>,
               Ann (line_num rxtx + 10) [''Frame error'', ''Frame err'', ''FE'']),
              (samplenum d - \<lfloor>bit_width d / 2\<rfloor>, samplenum d + \<lceil>bit_width d / 2\<rceil>,
               Python ''STOPBIT'' (line_num rxtx) (PBit 0)),
              (samplenum d - \<lfloor>bit_width d / 2\<rfloor>, samplenum d + \<lceil>bit_width d / 2\<rceil>,
               Ann (line_num rxtx + 4) [''Stop bit'', ''Stop'', ''T''])]) \<and>
         (s = 1 \<longrightarrow> outs =
             [(samplenum d - \<lfloor>bit_width d / 2\<rfloor>, samplenum d + \<lceil>bit_width d / 2\<rceil>,
               Python ''STOPBIT'' (line_num rxtx) (PBit 1)),
              (samplenum d - \<lfloor>bit_width d / 2\<rfloor>, samplenum d + \<lceil>bit_width d / 2\<rceil>,
               Ann (line_num rxtx + 4) [''Stop bit'', ''Stop'', ''T''])]) \<and>
         (\<forall>sn e. \<exists>d2. inspect_sample opts rxtx e invert (d1\<lparr>samplenum := sn\<rparr>) = Inr (d2, []) \<and>
            state d2 rxtx = GET_START_BIT \<and> frame_start d2 rxtx = sn \<and>
            (\<forall>sn2 b. (if invert then py_not b else b) = 0 \<longrightarrow>
               (\<exists>d3. inspect_sample opts rxtx b invert (d2\<lparr>samplenum := sn2\<rparr>) =
                  Inr (d3,
                    [(sn2 - \<lfloor>bit_width d / 2\<rfloor>, sn2 + \<lceil>bit_width d / 2\<rceil>,
                      Python ''STARTBIT'' (line_num rxtx) (PBit 0)),
                     (sn2 - \<lfloor>bit_width d / 2\<rfloor>, sn2 + \<lceil>bit_width d / 2\<rceil>,
                      Ann (line_num rxtx + 2) [''Start bit'', ''Start'', ''S''])]) \<and>
                  state d3 rxtx = GET_DATA_BITS)))"
  using assms
  by (simp add: inspect_sample_def get_stop_bits_def wait_for_start_bit_def get_start_bit_def
      putp_def putg_def Let_def)

theorem invalid_stop_bit_witness:
  "state (new_decoder\<lparr>state := (\<lambda>_. GET_STOP_BITS)\<rparr>) TX = GET_STOP_BITS \<and>
   (0 :: int) = (if False then py_not 0 else 0) \<and>
   (\<exists>d1. inspect_sample default_options TX 0 False
            (new_decoder\<lparr>state := (\<lambda>_. GET_STOP_BITS)\<rparr>) =
           Inr (d1,
             [(0, 0, Python ''INVALID STOPBIT'' 1 (PBit 0)),
              (0, 0, Ann 11 [''Frame error'', ''Frame err'', ''FE'']),
              (0, 0, Python ''STOPBIT'' 1 (PBit 0)),
              (0, 0, Ann 5 [''Stop bit'', ''Stop'', ''T''])]) \<and>
         state d1 TX = WAIT_FOR_START_BIT)"
proof -
  let ?d = "new_decoder\<lparr>state := (\<lambda>_. GET_STOP_BITS)\<rparr>"
  have h1: "state ?d TX = GET_STOP_BITS" by simp
  have h2: "(0 :: int) = (if False then py_not 0 else 0)" by simp
  have v: "samplenum ?d = 0" "bit_width ?d = 0" "line_num TX = 1"
    by (simp_all add: new_decoder_def reset_def line_num_def)
  obtain d1 outs where
    r: "inspect_sample default_options TX 0 False ?d = Inr (d1, outs)"
    and w: "state d1 TX = WAIT_FOR_START_BIT"
    and o: "(0 :: int) = 0 \<longrightarrow> outs =
             [(samplenum ?d - \<lfloor>bit_width ?d / 2\<rfloor>, samplenum ?d + \<lceil>bit_width ?d / 2\<rceil>,
               Python ''INVALID STOPBIT'' (line_num TX) (PBit 0)),
              (samplenum ?d - \<lfloor>bit_width ?d / 2\<rfloor>, samplenum ?d + \<lceil>bit_width ?d / 2\<rceil>,
               Ann (line_num TX + 10) [''Frame error'', ''Frame err'', ''FE'']),
              (samplenum ?d - \<lfloor>bit_width ?d / 2\<rfloor>, samplenum ?d + \<lceil>bit_width ?d / 2\<rceil>,
               Python ''STOPBIT'' (line_num TX) (PBit 0)),
              (samplenum ?d - \<lfloor>bit_width ?d / 2\<rfloor>, samplenum ?d + \<lceil>bit_width ?d / 2\<rceil>,
               Ann (line_num TX + 4) [''Stop bit'', ''Stop'', ''T''])]"
    using invalid_stop_bit [OF h1 h2, of default_options] by blast
  show ?thesis using r w o h1 v by simp
qed

subsection \<open>Start of a decode run\<close>

text \<open>
  C9. \<open>decode\<close> raises \<open>SamplerateError\<close> with its message when the sample rate is not
  set, and \<open>ChannelError\<close> with its message when the sample rate is set and neither RX
  nor TX is present; with no line present it raises one of the two in any case. In all
  these cases the result does not depend on the host's \<open>wait\<close>, the host state is the
  initial one, and no output is put.
\<close>

theorem startup_failures:
  "(samplerate d = None \<or> samplerate d = Some 0 \<longrightarrow>
      decode fuel wait opts has_channel h d =
        (Raised (SamplerateError ''Cannot decode without samplerate.''), h, d, [])) \<and>
   (\<not> (samplerate d = None \<or> samplerate d = Some 0) \<and>
    \<not> has_channel RX \<and> \<not> has_channel TX \<longrightarrow>
      decode fuel wait opts has_channel h d =
        (Raised (ChannelError ''Either TX or RX (or both) pins required.''), h, d, [])) \<and>
   (\<not> has_channel RX \<and> \<not> has_channel TX \<longrightarrow>
      (\<exists>msg. decode fuel wait opts has_channel h d = (Raised (SamplerateError msg), h, d, []) \<or>
             decode fuel wait opts has_channel h d = (Raised (ChannelError msg), h, d, [])))"
  by (auto simp: decode_def)

theorem startup_failures_witness:
  "samplerate new_decoder = None \<and>
   decode 5 replay default_options (\<lambda>l. True)
     [\<lparr>w_samplenum = 3, w_rx = 0, w_tx = 1, w_matched = [True, False]\<rparr>] new_decoder =
     (Raised (SamplerateError ''Cannot decode without samplerate.''),
      [\<lparr>w_samplenum = 3, w_rx = 0, w_tx = 1, w_matched = [True, False]\<rparr>], new_decoder, [])"
proof -
  have h: "samplerate new_decoder = None" by (simp add: new_decoder_def reset_def)
  show ?thesis
    using startup_failures [of new_decoder 5 replay default_options "\<lambda>l. True"
        "[\<lparr>w_samplenum = 3, w_rx = 0, w_tx = 1, w_matched = [True, False]\<rparr>]"] h
    by simp
qed

subsection \<open>Options the decoder does not read\<close>















subsection \<open>The data-bit index and the accumulator\<close>
























end
